theory Spec2Isabelle
  imports Main "HOL-Library.Sublist"
begin

section \<open>Python strings\<close>

text \<open>
  A Python \<open>str\<close> is modelled as a \<^typ>\<open>string\<close> holding the UTF-8 bytes of the text.
  Substring search, \<open>split\<close>, \<open>replace\<close>, \<open>join\<close> and equality on valid UTF-8 text agree
  with the same operations on code points; \<open>strip\<close> is the one operation of this program
  that looks at individual code points, and it is written out on the byte sequences
  below.
\<close>

text \<open>
  \<open>find_sub pat s\<close>: the first (leftmost) occurrence of \<open>pat\<close> in \<open>s\<close>, as the text before it
  and the text after it; \<open>None\<close> when \<open>pat\<close> does not occur. This is the search that
  \<open>pat in s\<close>, \<open>s.split(pat)\<close>, \<open>s.replace(pat, ...)\<close> and \<open>s.count(pat)\<close> share.
\<close>

fun find_sub :: "string \<Rightarrow> string \<Rightarrow> (string \<times> string) option" where
  "find_sub pat [] = (if pat = [] then Some ([], []) else None)"
| "find_sub pat (c # cs) =
     (if prefix pat (c # cs) then Some ([], drop (length pat) (c # cs))
      else map_option (\<lambda>(a, b). (c # a, b)) (find_sub pat cs))"

text \<open>\<open>sub in s\<close> for two strings.\<close>

definition py_contains :: "string \<Rightarrow> string \<Rightarrow> bool" where
  "py_contains sub s = (find_sub sub s \<noteq> None)"

lemma find_sub_Some:
  "find_sub pat s = Some (a, b) \<Longrightarrow> s = a @ pat @ b"
proof (induction s arbitrary: a b)
  case Nil
  then show ?case by (simp split: if_splits)
next
  case (Cons c cs)
  show ?case
  proof (cases "prefix pat (c # cs)")
    case True
    with Cons.prems have "a = []" "b = drop (length pat) (c # cs)" by simp_all
    moreover from True have "c # cs = pat @ drop (length pat) (c # cs)"
      by (metis append_eq_conv_conj prefixE)
    ultimately show ?thesis by simp
  next
    case False
    with Cons.prems obtain a' where "find_sub pat cs = Some (a', b)" "a = c # a'"
      by auto
    with Cons.IH show ?thesis by simp
  qed
qed

lemma find_sub_shorter:
  "find_sub pat s = Some (a, b) \<Longrightarrow> pat \<noteq> [] \<Longrightarrow> length b < length s"
  by (drule find_sub_Some) (simp add: less_le)

text \<open>
  \<open>s.split(sep)\<close> for a non-empty separator: the pieces between the non-overlapping
  occurrences of \<open>sep\<close>, found from the left. (With an empty separator Python raises
  \<open>ValueError\<close>; the separators of this program are the literals \<open>" # "\<close> and
  \<open>"\n"\<close>.)
\<close>

function split_on :: "string \<Rightarrow> string \<Rightarrow> string list" where
  "split_on sep s =
     (if sep = [] then [s]
      else case find_sub sep s of
             None \<Rightarrow> [s]
           | Some (a, b) \<Rightarrow> a # split_on sep b)"
  by pat_completeness auto
termination
  by (relation "measure (\<lambda>(sep, s). length s)") (auto dest: find_sub_shorter)

declare split_on.simps [simp del]

text \<open>
  \<open>s.replace(old, new)\<close>: every non-overlapping occurrence of \<open>old\<close>, found from the left,
  is replaced. With an empty \<open>old\<close> Python puts \<open>new\<close> before every character and at the
  end.
\<close>

function replace_nonempty :: "string \<Rightarrow> string \<Rightarrow> string \<Rightarrow> string" where
  "replace_nonempty old new s =
     (if old = [] then s
      else case find_sub old s of
             None \<Rightarrow> s
           | Some (a, b) \<Rightarrow> a @ new @ replace_nonempty old new b)"
  by pat_completeness auto
termination
  by (relation "measure (\<lambda>(old, new, s). length s)") (auto dest: find_sub_shorter)

declare replace_nonempty.simps [simp del]

definition py_replace :: "string \<Rightarrow> string \<Rightarrow> string \<Rightarrow> string" where
  "py_replace old new s =
     (if old = [] then new @ concat (map (\<lambda>c. c # new) s)
      else replace_nonempty old new s)"

text \<open>\<open>s.count(sub)\<close> for a non-empty \<open>sub\<close>: the number of non-overlapping occurrences.\<close>

function py_count :: "string \<Rightarrow> string \<Rightarrow> nat" where
  "py_count sub s =
     (if sub = [] then Suc (length s)
      else case find_sub sub s of
             None \<Rightarrow> 0
           | Some (a, b) \<Rightarrow> Suc (py_count sub b))"
  by pat_completeness auto
termination
  by (relation "measure (\<lambda>(sub, s). length s)") (auto dest: find_sub_shorter)

declare py_count.simps [simp del]

text \<open>\<open>sep.join(xs)\<close>.\<close>

fun py_join :: "string \<Rightarrow> string list \<Rightarrow> string" where
  "py_join sep [] = []"
| "py_join sep [x] = x"
| "py_join sep (x # y # ys) = x @ sep @ py_join sep (y # ys)"

text \<open>
  \<open>s.strip()\<close> removes leading and trailing whitespace: the code points for which
  \<open>str.isspace\<close> holds, listed here by their UTF-8 encodings (U+0009 to U+000D, U+001C to
  U+0020, U+0085, U+00A0, U+1680, U+2000 to U+200A, U+2028, U+2029, U+202F, U+205F,
  U+3000).
\<close>

definition whitespace :: "string list" where
  "whitespace =
     [[CHR 0x09], [CHR 0x0A], [CHR 0x0B], [CHR 0x0C], [CHR 0x0D],
      [CHR 0x1C], [CHR 0x1D], [CHR 0x1E], [CHR 0x1F], [CHR 0x20],
      [CHR 0xC2, CHR 0x85], [CHR 0xC2, CHR 0xA0], [CHR 0xE1, CHR 0x9A, CHR 0x80],
      [CHR 0xE2, CHR 0x80, CHR 0x80], [CHR 0xE2, CHR 0x80, CHR 0x81],
      [CHR 0xE2, CHR 0x80, CHR 0x82], [CHR 0xE2, CHR 0x80, CHR 0x83],
      [CHR 0xE2, CHR 0x80, CHR 0x84], [CHR 0xE2, CHR 0x80, CHR 0x85],
      [CHR 0xE2, CHR 0x80, CHR 0x86], [CHR 0xE2, CHR 0x80, CHR 0x87],
      [CHR 0xE2, CHR 0x80, CHR 0x88], [CHR 0xE2, CHR 0x80, CHR 0x89],
      [CHR 0xE2, CHR 0x80, CHR 0x8A], [CHR 0xE2, CHR 0x80, CHR 0xA8],
      [CHR 0xE2, CHR 0x80, CHR 0xA9], [CHR 0xE2, CHR 0x80, CHR 0xAF],
      [CHR 0xE2, CHR 0x81, CHR 0x9F], [CHR 0xE3, CHR 0x80, CHR 0x80]]"

lemma find_prefix_shorter:
  "find (\<lambda>w. w \<noteq> [] \<and> prefix w s) seqs = Some w \<Longrightarrow> length (drop (length w) s) < length s"
  by (auto simp: find_Some_iff prefix_def)

function drop_leading :: "string list \<Rightarrow> string \<Rightarrow> string" where
  "drop_leading seqs s =
     (case find (\<lambda>w. w \<noteq> [] \<and> prefix w s) seqs of
        None \<Rightarrow> s
      | Some w \<Rightarrow> drop_leading seqs (drop (length w) s))"
  by pat_completeness auto
termination
  by (relation "measure (\<lambda>(seqs, s). length s)") (auto dest: find_prefix_shorter)

declare drop_leading.simps [simp del]

definition py_strip :: "string \<Rightarrow> string" where
  "py_strip s = rev (drop_leading (map rev whitespace) (rev (drop_leading whitespace s)))"

section \<open>Python values and exceptions\<close>

text \<open>
  The values \<open>json.load\<close> produces and the model client returns: \<open>None\<close>, booleans,
  numbers, strings, lists and dicts with string keys. A dict is an association list;
  the first binding of a key is the dict's value at that key. (A JSON float behaves as
  an integer does on every path of this program, so numbers are integers here.)
\<close>

datatype pyval =
    PNone
  | PBool bool
  | PInt int
  | PStr string
  | PList "pyval list"
  | PDict "(string \<times> pyval) list"

type_synonym message = "(string \<times> pyval) list"

text \<open>
  The exceptions of the modelled paths. \<open>ModelError\<close> is an exception raised by the model
  client, with its message.
\<close>

datatype py_error = IndexError | KeyError | TypeError | AttributeError | ModelError string

text \<open>\<open>d.get(key, default)\<close> on a dict.\<close>

definition dict_get :: "(string \<times> pyval) list \<Rightarrow> string \<Rightarrow> pyval \<Rightarrow> pyval" where
  "dict_get d k dflt = (case map_of d k of None \<Rightarrow> dflt | Some v \<Rightarrow> v)"

text \<open>
  \<open>v[0]\<close>: the first element of a list; \<open>IndexError\<close> on an empty list or string;
  \<open>KeyError\<close> on a dict (its keys are strings); \<open>TypeError\<close> on a value that cannot be
  indexed. A non-empty string gives its first character, a string again.
\<close>

fun first_char :: "string \<Rightarrow> string" where
  "first_char [] = []"
| "first_char (c # cs) = c # takeWhile (\<lambda>d. (0x80 :: nat) \<le> of_char d \<and> (of_char d :: nat) < 0xC0) cs"

fun py_index0 :: "pyval \<Rightarrow> py_error + pyval" where
  "py_index0 (PList []) = Inl IndexError"
| "py_index0 (PList (x # xs)) = Inr x"
| "py_index0 (PStr []) = Inl IndexError"
| "py_index0 (PStr (c # cs)) = Inr (PStr (first_char (c # cs)))"
| "py_index0 (PDict d) = Inl KeyError"
| "py_index0 v = Inl TypeError"

text \<open>\<open>v.get("text", "")\<close>: only a dict has \<open>get\<close>.\<close>

fun get_text :: "pyval \<Rightarrow> py_error + pyval" where
  "get_text (PDict d) = Inr (dict_get d ''text'' (PStr []))"
| "get_text v = Inl AttributeError"

text \<open>\<open>xs[i]\<close> on a list of strings, \<open>i\<close> not negative.\<close>

definition py_nth :: "string list \<Rightarrow> nat \<Rightarrow> py_error + string" where
  "py_nth xs i = (if i < length xs then Inr (xs ! i) else Inl IndexError)"

text \<open>
  \<open>sub in v\<close> for a string \<open>sub\<close>: substring test on a string, element test on a list,
  key test on a dict, \<open>TypeError\<close> otherwise.
\<close>

fun py_in :: "string \<Rightarrow> pyval \<Rightarrow> py_error + bool" where
  "py_in sub (PStr s) = Inr (py_contains sub s)"
| "py_in sub (PList xs) = Inr (PStr sub \<in> set xs)"
| "py_in sub (PDict d) = Inr (sub \<in> fst ` set d)"
| "py_in sub v = Inl TypeError"

section \<open>Files, output and the external collaborators\<close>

text \<open>
  The file system is a map from paths to file texts; \<open>~\<close> in a path stands for
  \<open>Path.home()\<close>. A text-mode read translates \<open>\r\n\<close> and \<open>\r\<close> to \<open>\n\<close> (Python's
  universal newlines); a text-mode write stores the text as it is (POSIX). Only a missing
  file makes an operation fail: permissions, directories and undecodable bytes are
  outside the model.
\<close>

fun universal_newlines :: "string \<Rightarrow> string" where
  "universal_newlines [] = []"
| "universal_newlines (c # cs) =
     (if c = CHR 0x0D then
        (case cs of
           [] \<Rightarrow> [CHR 0x0A]
         | d # ds \<Rightarrow> if d = CHR 0x0A then CHR 0x0A # universal_newlines ds
                    else CHR 0x0A # universal_newlines cs)
      else c # universal_newlines cs)"

text \<open>
  Every \<open>print\<close> of the program is one output event, in order. \<open>Command_line v\<close> is
  \<open>print(f"Command: {v}")\<close>, \<open>Reply v\<close> is \<open>print(v)\<close> in chat mode, \<open>Error_line e\<close> is the
  line of the top-level handler; the others are the fixed messages.
\<close>

datatype out =
    Warn_history_not_found string
  | Warn_invalid_json string
  | Thinking
  | Command_line pyval
  | Reply pyval
  | Error_line py_error
  | Integration_installed
  | Run_source_hint
  | Already_installed
  | Bashrc_not_found
  | Reinstalling
  | Removing_existing
  | Installing_fresh
  | Reinstalled

record world =
  files :: "string \<Rightarrow> string option"
  stdout :: "out list"

definition print :: "out \<Rightarrow> world \<Rightarrow> world" where
  "print x w = w\<lparr>stdout := stdout w @ [x]\<rparr>"

definition read_text :: "world \<Rightarrow> string \<Rightarrow> string option" where
  "read_text w p = map_option universal_newlines (files w p)"

definition write_text :: "string \<Rightarrow> string \<Rightarrow> world \<Rightarrow> world" where
  "write_text p s w = w\<lparr>files := (files w)(p \<mapsto> s)\<rparr>"

text \<open>\<open>open(p, "a")\<close> and one \<open>write\<close>: the file is created when it is missing.\<close>

definition append_text :: "string \<Rightarrow> string \<Rightarrow> world \<Rightarrow> world" where
  "append_text p s w =
     w\<lparr>files := (files w)(p \<mapsto> (case files w p of None \<Rightarrow> s | Some old \<Rightarrow> old @ s))\<rparr>"

definition bashrc :: string where
  "bashrc = ''~/.bashrc''"

definition bash_history :: string where
  "bash_history = ''~/.bash_history''"

text \<open>
  What the program calls and this repository's \<open>cli.py\<close> does not define:
  \<open>json.load\<close> (\<open>None\<close> is \<open>JSONDecodeError\<close>), \<open>json.dump\<close> with \<open>indent=2\<close>, and the two
  functions of the model client, which get the terminal log, the loaded chat history
  and the user's text and either raise or return the updated list of messages.
\<close>

record externals =
  json_loads :: "string \<Rightarrow> pyval option"
  json_dumps :: "pyval \<Rightarrow> string"
  generate_command :: "string \<Rightarrow> pyval \<Rightarrow> string \<Rightarrow> py_error + message list"
  generate_chat_response :: "string \<Rightarrow> pyval \<Rightarrow> string \<Rightarrow> py_error + message list"

datatype command = Do | Chat

record args =
  command :: command
  prompt :: "string list"
  history_file :: "string option"
  chat_file :: "string option"

text \<open>\<open>if path:\<close> for an optional command-line string: \<open>None\<close> and \<open>""\<close> are false.\<close>

fun given :: "string option \<Rightarrow> string option" where
  "given None = None"
| "given (Some p) = (if p = [] then None else Some p)"

section \<open>The do and chat commands (\<open>main\<close>, lines 131 to 212)\<close>

text \<open>Lines 135 to 141: the terminal log, with a warning when the file is missing.\<close>

definition load_terminal_history :: "string option \<Rightarrow> world \<Rightarrow> string \<times> world" where
  "load_terminal_history hf w =
     (case given hf of
        None \<Rightarrow> ([], w)
      | Some p \<Rightarrow>
          (case read_text w p of
             None \<Rightarrow> ([], print (Warn_history_not_found p) w)
           | Some s \<Rightarrow> (s, w)))"

text \<open>Lines 144 to 154: the chat history.\<close>

definition load_chat_history :: "externals \<Rightarrow> string option \<Rightarrow> world \<Rightarrow> pyval \<times> world" where
  "load_chat_history ext cf w =
     (case given cf of
        None \<Rightarrow> (PList [], w)
      | Some p \<Rightarrow>
          (case read_text w p of
             None \<Rightarrow> (PList [], w)
           | Some s \<Rightarrow>
               (case json_loads ext s of
                  None \<Rightarrow> (PList [], print (Warn_invalid_json p) w)
                | Some h \<Rightarrow> (h, w))))"

text \<open>Lines 163 to 167 and 195 to 199: the scan of the reversed history.\<close>

definition is_assistant :: "message \<Rightarrow> bool" where
  "is_assistant msg = (map_of msg ''role'' = Some (PStr ''assistant''))"

definition last_assistant :: "message list \<Rightarrow> message option" where
  "last_assistant updated = find is_assistant (rev updated)"

text \<open>Lines 171 and 202: \<open>msg.get("content", [{}])[0].get("text", "")\<close>.\<close>

definition extract_text :: "message \<Rightarrow> py_error + pyval" where
  "extract_text msg =
     (case py_index0 (dict_get msg ''content'' (PList [PDict []])) of
        Inl e \<Rightarrow> Inl e
      | Inr part \<Rightarrow> get_text part)"

definition delimiter :: string where
  "delimiter = '' # ''"

definition annotation :: string where
  "annotation = '' * vity generated command''"

text \<open>
  Lines 173 to 175, for a string \<open>content\<close>: \<open>cmd_part\<close> is field 0 of
  \<open>content.split(" # ")\<close>, \<open>comment_part\<close> is field 1 with the annotation replaced by
  \<open>""\<close>, and \<open>cmd_string\<close> is \<open>f"{cmd_part} # {comment_part}"\<close>.
\<close>

definition cmd_string :: "string \<Rightarrow> py_error + string" where
  "cmd_string content =
     (case py_nth (split_on delimiter content) 0 of
        Inl e \<Rightarrow> Inl e
      | Inr cmd_part \<Rightarrow>
          (case py_nth (split_on delimiter content) 1 of
             Inl e \<Rightarrow> Inl e
           | Inr field \<Rightarrow> Inr (cmd_part @ '' # '' @ py_replace annotation [] field)))"

text \<open>
  Lines 179 to 182: the line is appended to \<open>~/.bash_history\<close> when that file exists.
\<close>

definition add_to_bash_history :: "string \<Rightarrow> world \<Rightarrow> world" where
  "add_to_bash_history line w =
     (case files w bash_history of
        None \<Rightarrow> w
      | Some old \<Rightarrow> append_text bash_history (line @ '' # Vity generated'' @ [CHR 0x0A]) w)"

text \<open>
  Lines 169 to 184. The result is the exception raised, if any, and the world at that
  point. A list or dict \<open>content\<close> that holds \<open>" # "\<close> has no \<open>split\<close>: \<open>AttributeError\<close>.
\<close>

definition report_command :: "message option \<Rightarrow> world \<Rightarrow> py_error option \<times> world" where
  "report_command last_assistant_msg w =
     (case last_assistant_msg of
        None \<Rightarrow> (None, w)
      | Some msg \<Rightarrow>
          if msg = [] then (None, w)
          else
            (case extract_text msg of
               Inl e \<Rightarrow> (Some e, w)
             | Inr content \<Rightarrow>
                 (case py_in delimiter content of
                    Inl e \<Rightarrow> (Some e, w)
                  | Inr True \<Rightarrow>
                      (case content of
                         PStr s \<Rightarrow>
                           (case cmd_string s of
                              Inl e \<Rightarrow> (Some e, w)
                            | Inr c \<Rightarrow>
                                (None, add_to_bash_history c (print (Command_line (PStr c)) w)))
                       | _ \<Rightarrow> (Some AttributeError, w))
                  | Inr False \<Rightarrow> (None, print (Command_line content) w))))"

text \<open>Lines 202 and 203.\<close>

definition report_reply :: "message option \<Rightarrow> world \<Rightarrow> py_error option \<times> world" where
  "report_reply last_assistant_msg w =
     (case last_assistant_msg of
        None \<Rightarrow> (None, w)
      | Some msg \<Rightarrow>
          if msg = [] then (None, w)
          else
            (case extract_text msg of
               Inl e \<Rightarrow> (Some e, w)
             | Inr content \<Rightarrow> (None, print (Reply content) w)))"

text \<open>Lines 187 to 189 and 206 to 208: the whole file is rewritten.\<close>

definition save_chat_history :: "externals \<Rightarrow> string option \<Rightarrow> message list \<Rightarrow> world \<Rightarrow> world" where
  "save_chat_history ext cf updated w =
     (case given cf of
        None \<Rightarrow> w
      | Some p \<Rightarrow> write_text p (json_dumps ext (PList (map PDict updated))) w)"

text \<open>Lines 159 to 189, the body of the \<open>try\<close> for \<open>do\<close>.\<close>

definition do_branch ::
  "externals \<Rightarrow> args \<Rightarrow> string \<Rightarrow> pyval \<Rightarrow> string \<Rightarrow> world \<Rightarrow> py_error option \<times> world" where
  "do_branch ext a terminal_history chat_history user_input w =
     (case generate_command ext terminal_history chat_history user_input of
        Inl e \<Rightarrow> (Some e, w)
      | Inr updated \<Rightarrow>
          (case report_command (last_assistant updated) w of
             (Some e, w') \<Rightarrow> (Some e, w')
           | (None, w') \<Rightarrow> (None, save_chat_history ext (chat_file a) updated w')))"

text \<open>Lines 191 to 208, the body of the \<open>try\<close> for \<open>chat\<close>.\<close>

definition chat_branch ::
  "externals \<Rightarrow> args \<Rightarrow> string \<Rightarrow> pyval \<Rightarrow> string \<Rightarrow> world \<Rightarrow> py_error option \<times> world" where
  "chat_branch ext a terminal_history chat_history user_input w =
     (case generate_chat_response ext terminal_history chat_history user_input of
        Inl e \<Rightarrow> (Some e, w)
      | Inr updated \<Rightarrow>
          (case report_reply (last_assistant updated) w of
             (Some e, w') \<Rightarrow> (Some e, w')
           | (None, w') \<Rightarrow> (None, save_chat_history ext (chat_file a) updated w')))"

text \<open>
  Lines 131 to 212: the \<open>do\<close> and \<open>chat\<close> commands, once the configuration exists. The
  result is the final world and the exit code of the process: 1 from \<open>sys.exit(1)\<close> in
  the handler of line 210, 0 when \<open>main\<close> returns.
\<close>

definition main_do_chat :: "externals \<Rightarrow> args \<Rightarrow> world \<Rightarrow> world \<times> int" where
  "main_do_chat ext a w =
     (let user_input = py_join '' '' (prompt a);
          (terminal_history, w1) = load_terminal_history (history_file a) w;
          (chat_history, w2) = load_chat_history ext (chat_file a) w1;
          w3 = print Thinking w2;
          (raised, w4) =
            (case command a of
               Do \<Rightarrow> do_branch ext a terminal_history chat_history user_input w3
             | Chat \<Rightarrow> chat_branch ext a terminal_history chat_history user_input w3)
      in case raised of
           Some e \<Rightarrow> (print (Error_line e) w4, 1)
         | None \<Rightarrow> (w4, 0))"

section \<open>Shell integration (\<open>install_shell_integration\<close>, \<open>reinstall_shell_integration\<close>)\<close>

text \<open>
  Lines 217 to 335: the lines of \<open>script_content\<close>, the text between the triple quotes.
  It starts with an empty line and ends with a newline, so the first and the last
  element are empty. Bytes outside printable ASCII, backslashes and some quotes are
  written by their codes.
\<close>

definition script_lines :: "string list" where
  \<open>script_lines =
     ['''',
      ''# Vity shell integration'',
      ''vity() {'',
      ''    if [[ "$1" == "record" ]]; then'',
      ''        shift'',
      ''        log_dir="$HOME/.local/share/vity/logs"'',
      ''        chat_dir="$HOME/.local/share/vity/chat"'',
      ''        mkdir -p "$log_dir"'',
      ''        mkdir -p "$chat_dir"'',
      ''        logfile="$log_dir/$(date +%Y%m%d-%H%M%S)-$$.log"'',
      ''        chatfile="$chat_dir/$(date +%Y%m%d-%H%M%S)-$$.json"'',
      ''        '',
      ''        export VITY_ACTIVE_LOG="$logfile"'',
      ''        export VITY_ACTIVE_CHAT="$chatfile"'',
      ''        export VITY_RECORDING="'' @ [CHR 0xF0, CHR 0x9F, CHR 0x94, CHR 0xB4] @ ''"'',
      ''        export VITY_OLD_PS1="$PS1"'',
      ''        export PS1="$VITY_RECORDING $PS1"'',
      ''        echo -ne "'' @ [CHR 0x5C] @ ''033]0;'' @ [CHR 0xF0, CHR 0x9F, CHR 0x94, CHR 0xB4] @ '' RECORDING - Vity Session'' @ [CHR 0x5C] @ ''007"'',
      ''        '',
      ''        echo "'' @ [CHR 0xF0, CHR 0x9F, CHR 0x94, CHR 0xB4] @ '' Starting recording session"'',
      ''        echo "'' @ [CHR 0xF0, CHR 0x9F, CHR 0x93, CHR 0x9D] @ '' Use 'vity do' or 'vity chat' for contextual help"'',
      ''        echo "'' @ [CHR 0xF0, CHR 0x9F, CHR 0x9B, CHR 0x91] @ '' Type 'exit' to stop recording"'',
      ''        '',
      ''        script -f "$logfile"'',
      ''        '',
      ''        unset VITY_ACTIVE_LOG VITY_ACTIVE_CHAT VITY_RECORDING VITY_OLD_PS1'',
      ''        export PS1="$VITY_OLD_PS1"'',
      ''        # Don't change terminal title on exit - let terminal use its default behavior'',
      ''        echo "'' @ [CHR 0xF0, CHR 0x9F, CHR 0x9F, CHR 0xA2] @ '' Recording session ended"'',
      ''        '',
      ''    elif [[ "$1" == "do" ]]; then'',
      ''        shift'',
      ''        if [[ -n "$VITY_ACTIVE_LOG" && -f "$VITY_ACTIVE_LOG" ]]; then'',
      ''            command vity -f "$VITY_ACTIVE_LOG" -c "$VITY_ACTIVE_CHAT" do "$@"'',
      ''        else'',
      ''            echo "'' @ [CHR 0xE2, CHR 0x9A, CHR 0xA0, CHR 0xEF, CHR 0xB8, CHR 0x8F] @ ''  No active recording. Use 'vity record' for context."'',
      ''            command vity do "$@"'',
      ''        fi'',
      ''        '',
      ''    elif [[ "$1" == "chat" ]]; then'',
      ''        shift'',
      ''        if [[ -n "$VITY_ACTIVE_LOG" && -f "$VITY_ACTIVE_LOG" ]]; then'',
      ''            command vity -f "$VITY_ACTIVE_LOG" -c "$VITY_ACTIVE_CHAT" chat "$@"'',
      ''        else'',
      ''            echo "'' @ [CHR 0xE2, CHR 0x9A, CHR 0xA0, CHR 0xEF, CHR 0xB8, CHR 0x8F] @ ''  No active recording. Use 'vity record' for context."'',
      ''            command vity chat "$@"'',
      ''        fi'',
      ''        '',
      ''    elif [[ "$1" == "status" ]]; then'',
      ''        if [[ -n "$VITY_ACTIVE_LOG" ]]; then'',
      ''            echo "'' @ [CHR 0xF0, CHR 0x9F, CHR 0x94, CHR 0xB4] @ '' Recording active:"'',
      ''            echo "  '' @ [CHR 0xF0, CHR 0x9F, CHR 0x93, CHR 0x9D] @ '' Terminal log: $VITY_ACTIVE_LOG"'',
      ''            echo "  '' @ [CHR 0xF0, CHR 0x9F, CHR 0x92, CHR 0xAC] @ '' Chat history: $VITY_ACTIVE_CHAT"'',
      ''        else'',
      ''            echo "'' @ [CHR 0xE2, CHR 0x9A, CHR 0xAB] @ '' No active recording"'',
      ''        fi'',
      ''        '',
      ''    elif [[ "$1" == "help" || "$1" == "-h" || "$1" == "--help" ]]; then'',
      ''        cat << 'EOF'' @ [CHR 0x27],
      [CHR 0xF0, CHR 0x9F, CHR 0xA4, CHR 0x96] @ '' Vity - AI Terminal Assistant'',
      '''',
      ''USAGE:'',
      ''    vity <command> [options] [prompt]'',
      '''',
      ''COMMANDS:'',
      ''    do <prompt>      Generate a shell command (adds to history)'',
      ''    chat <prompt>    Chat with AI about terminal/coding topics'',
      ''    record           Start recording session for context'',
      ''    status           Show current recording status'',
      ''    config           Show configuration'',
      ''    config --reset   Reset configuration (always available)'',
      ''    install          Install shell integration (always available)'',
      ''    reinstall        Reinstall shell integration (always available)'',
      ''    help             Show this help message'',
      '''',
      ''EXAMPLES:'',
      ''    vity do "find all python files"'',
      ''    vity chat "explain this error message"'',
      ''    vity record'',
      ''    vity do "deploy the app"  # (with context from recording)'',
      ''    vity status'',
      ''    vity config --reset'',
      ''    vity reinstall'',
      '''',
      ''CONTEXT:'',
      ''    '' @ [CHR 0xE2, CHR 0x80, CHR 0xA2] @ '' Use 'vity record' to start capturing session context'',
      ''    '' @ [CHR 0xE2, CHR 0x80, CHR 0xA2] @ '' Commands run during recording provide better AI responses'',
      ''    '' @ [CHR 0xE2, CHR 0x80, CHR 0xA2] @ '' Recording captures both terminal output and chat history'',
      ''    '' @ [CHR 0xE2, CHR 0x80, CHR 0xA2] @ '' Recording indicator ('' @ [CHR 0xF0, CHR 0x9F, CHR 0x94, CHR 0xB4] @ '') shows in your prompt'',
      ''    '' @ [CHR 0xE2, CHR 0x80, CHR 0xA2] @ '' Use 'exit' to stop recording'',
      ''EOF'',
      ''        '',
      ''    else'',
      ''        # Show help for unknown commands or no arguments'',
      ''        if [[ -n "$1" ]]; then'',
      ''            echo "'' @ [CHR 0xE2, CHR 0x9D, CHR 0x8C] @ '' Unknown command: $1"'',
      ''            echo ""'',
      ''        fi'',
      ''        echo "'' @ [CHR 0xF0, CHR 0x9F, CHR 0xA4, CHR 0x96] @ '' Vity - AI Terminal Assistant"'',
      ''        echo ""'',
      ''        echo "Usage: vity <command> [prompt]"'',
      ''        echo ""'',
      ''        echo "Commands:"'',
      ''        echo "  do <prompt>      Generate shell command"'',
      ''        echo "  chat <prompt>    Chat with AI"'',
      ''        echo "  record           Start recording session"'',
      ''        echo "  status           Show recording status"'',
      ''        echo "  config           Show configuration"'',
      ''        echo "  config --reset   Reset configuration"'',
      ''        echo "  install          Install shell integration"'',
      ''        echo "  reinstall        Reinstall shell integration"'',
      ''        echo "  help             Show detailed help"'',
      ''        echo ""'',
      ''        echo "Run 'vity help' for more details and examples."'',
      ''    fi'',
      ''    '',
      ''    history -n 2>/dev/null || true'',
      ''}'',
      '''']\<close>

definition newline :: string where
  "newline = [CHR 0x0A]"

definition script_content :: string where
  "script_content = py_join newline script_lines"

definition marker :: string where
  "marker = ''# Vity shell integration''"

text \<open>Lines 337 to 348.\<close>

definition install_shell_integration :: "world \<Rightarrow> world" where
  "install_shell_integration w =
     (case read_text w bashrc of
        None \<Rightarrow> print Bashrc_not_found w
      | Some content \<Rightarrow>
          if \<not> py_contains marker content
          then print Run_source_hint
                 (print Integration_installed
                    (append_text bashrc (newline @ script_content) w))
          else print Already_installed w)"

text \<open>
  Lines 369 to 378: the loop over the lines, with \<open>in_vity_section\<close> and \<open>new_lines\<close> as
  its state.
\<close>

fun remove_section :: "string list \<Rightarrow> bool \<Rightarrow> string list \<Rightarrow> world \<Rightarrow> string list \<times> world" where
  "remove_section [] in_vity_section new_lines w = (new_lines, w)"
| "remove_section (line # rest) in_vity_section new_lines w =
     (if py_strip line = marker
      then remove_section rest True new_lines (print Removing_existing w)
      else if in_vity_section \<and> py_strip line = ''}''
      then remove_section rest False new_lines w
      else if \<not> in_vity_section
      then remove_section rest in_vity_section (new_lines @ [line]) w
      else remove_section rest in_vity_section new_lines w)"

text \<open>Lines 351 to 387.\<close>

definition reinstall_shell_integration :: "world \<Rightarrow> world" where
  "reinstall_shell_integration w =
     (case read_text w bashrc of
        None \<Rightarrow> print Bashrc_not_found w
      | Some content \<Rightarrow>
          (let w1 = print Reinstalling w;
               (new_lines, w2) = remove_section (split_on newline content) False [] w1;
               w3 = write_text bashrc (py_join newline new_lines) w2;
               w4 = install_shell_integration (print Installing_fresh w3)
           in print Run_source_hint (print Reinstalled w4)))"

section \<open>Reading an invocation\<close>

text \<open>
  Two names for what an invocation of \<open>main_do_chat\<close> does before line 158: the world
  once both files are loaded (only warnings have been printed), and the result of the
  call of the model client on line 160 or 192.
\<close>

definition after_loading :: "externals \<Rightarrow> args \<Rightarrow> world \<Rightarrow> world" where
  "after_loading ext a w =
     snd (load_chat_history ext (chat_file a) (snd (load_terminal_history (history_file a) w)))"

definition model_call :: "externals \<Rightarrow> args \<Rightarrow> world \<Rightarrow> py_error + message list" where
  "model_call ext a w =
     (let user_input = py_join '' '' (prompt a);
          (terminal_history, w1) = load_terminal_history (history_file a) w;
          (chat_history, w2) = load_chat_history ext (chat_file a) w1
      in case command a of
           Do \<Rightarrow> generate_command ext terminal_history chat_history user_input
         | Chat \<Rightarrow> generate_chat_response ext terminal_history chat_history user_input)"

text \<open>Example inputs for the concrete instances below.\<close>

definition failing_client :: externals where
  "failing_client =
     \<lparr>json_loads = (\<lambda>s. None), json_dumps = (\<lambda>v. ''[]''),
      generate_command = (\<lambda>t h u. Inl (ModelError ''timeout'')),
      generate_chat_response = (\<lambda>t h u. Inl (ModelError ''timeout''))\<rparr>"

definition example_args :: "command \<Rightarrow> args" where
  "example_args c =
     \<lparr>command = c, prompt = [''list'', ''files''], history_file = None,
      chat_file = Some ''chat.json''\<rparr>"

definition example_world :: world where
  "example_world =
     \<lparr>files = [''chat.json'' \<mapsto> ''{not json'', ''~/.bash_history'' \<mapsto> ''ls'' @ [CHR 0x0A]],
      stdout = []\<rparr>"

definition text_message :: "string \<Rightarrow> string \<Rightarrow> message" where
  "text_message role t =
     [(''role'', PStr role), (''content'', PList [PDict [(''type'', PStr ''text''), (''text'', PStr t)]])]"

definition replying_client :: "message list \<Rightarrow> externals" where
  "replying_client updated =
     \<lparr>json_loads = (\<lambda>s. None), json_dumps = (\<lambda>v. ''[]''),
      generate_command = (\<lambda>t h u. Inr updated),
      generate_chat_response = (\<lambda>t h u. Inr updated)\<rparr>"

definition profile_world :: "string \<Rightarrow> world" where
  "profile_world s = \<lparr>files = [bashrc \<mapsto> s], stdout = []\<rparr>"

text \<open>
  The lines of the script between its marker line and its closing line, and what it
  means for the lines of a profile to hold exactly one integration block: a marker
  line, later a line that is a closing brace alone, no other marker line anywhere and
  no other closing-brace line in between. \<open>pre\<close>, \<open>body\<close> and \<open>post\<close> are the lines
  before, inside and after the block.
\<close>

definition script_block_body :: "string list" where
  "script_block_body = butlast (butlast (drop 2 script_lines))"

definition one_block :: "string list \<Rightarrow> string list \<Rightarrow> string list \<Rightarrow> string list \<Rightarrow> bool" where
  "one_block ls pre body post =
     (\<exists>m c. ls = pre @ m # body @ c # post \<and> py_strip m = marker \<and> py_strip c = ''}'' \<and>
        list_all (\<lambda>l. py_strip l \<noteq> marker) (pre @ body @ post) \<and>
        list_all (\<lambda>l. py_strip l \<noteq> ''}'') body)"

text \<open>
  \<open>first_occurrence pat s a b\<close>: \<open>s\<close> is \<open>a\<close>, then \<open>pat\<close>, then \<open>b\<close>, and no occurrence of
  \<open>pat\<close> in \<open>s\<close> starts inside \<open>a\<close>.
\<close>

definition first_occurrence :: "string \<Rightarrow> string \<Rightarrow> string \<Rightarrow> string \<Rightarrow> bool" where
  "first_occurrence pat s a b = (s = a @ pat @ b \<and> \<not> py_contains pat (a @ butlast pat))"

text \<open>
  The command string as the specification words it: split at the first delimiter into
  the command and everything after it, and take the annotation off the end of that
  rest when it ends with it.
\<close>

definition spec_strip_annotation :: "string \<Rightarrow> string" where
  "spec_strip_annotation rest =
     (if suffix annotation rest then take (length rest - length annotation) rest else rest)"

definition spec_canonical :: "string \<Rightarrow> string" where
  "spec_canonical text =
     (case find_sub delimiter text of
        None \<Rightarrow> text
      | Some (cmdPart, rest) \<Rightarrow> cmdPart @ '' # '' @ spec_strip_annotation rest)"

section \<open>Basic facts\<close>

lemma files_print [simp]: "files (print x w) = files w"
  by (simp add: print_def)

lemma stdout_print [simp]: "stdout (print x w) = stdout w @ [x]"
  by (simp add: print_def)

lemma files_load_terminal_history [simp]:
  "files (snd (load_terminal_history hf w)) = files w"
  by (simp add: load_terminal_history_def split: option.splits)

lemma files_load_chat_history [simp]:
  "files (snd (load_chat_history ext cf w)) = files w"
  by (simp add: load_chat_history_def split: option.splits)

lemma files_after_loading [simp]: "files (after_loading ext a w) = files w"
  by (simp add: after_loading_def)

lemma main_do_chat_failure:
  "model_call ext a w = Inl e \<Longrightarrow>
   main_do_chat ext a w = (print (Error_line e) (print Thinking (after_loading ext a w)), 1)"
  by (cases "command a")
     (auto simp: main_do_chat_def model_call_def after_loading_def do_branch_def chat_branch_def
        Let_def split: prod.splits)

lemma is_assistant_nonempty: "is_assistant msg \<Longrightarrow> msg \<noteq> []"
  by (auto simp: is_assistant_def)

lemma last_assistant_Some:
  "last_assistant updated = Some msg \<Longrightarrow> is_assistant msg \<and> msg \<in> set updated"
  unfolding last_assistant_def
  by (metis find_Some_iff nth_mem set_rev length_rev)

lemma last_assistant_append:
  "is_assistant m \<Longrightarrow> \<not> list_ex is_assistant post \<Longrightarrow>
   last_assistant (pre @ [m] @ post) = Some m"
  by (induction post rule: rev_induct) (auto simp: last_assistant_def list_ex_iff)

lemma last_assistant_None:
  "\<not> list_ex is_assistant updated \<Longrightarrow> last_assistant updated = None"
  by (auto simp: last_assistant_def find_None_iff list_ex_iff)

section \<open>A failing model call\<close>

text \<open>
  Claim C8. If the call of the model client raises, the invocation prints the error
  line (after the loading warnings and the progress line), exits with code 1, and
  leaves every file as it was: no chat history is written.
\<close>

theorem model_failure_exits_1_and_writes_nothing:
  "model_call ext a w = Inl e \<Longrightarrow>
   snd (main_do_chat ext a w) = 1 \<and>
   files (fst (main_do_chat ext a w)) = files w \<and>
   stdout (fst (main_do_chat ext a w)) =
     stdout (after_loading ext a w) @ [Thinking, Error_line e]"
  by (simp add: main_do_chat_failure)

theorem model_failure_witness:
  "model_call failing_client (example_args Do) example_world = Inl (ModelError ''timeout'') \<and>
   snd (main_do_chat failing_client (example_args Do) example_world) = 1 \<and>
   files (fst (main_do_chat failing_client (example_args Do) example_world)) =
     files example_world"
proof -
  have h: "model_call failing_client (example_args Do) example_world =
      Inl (ModelError ''timeout'')"
    by (simp add: model_call_def failing_client_def example_args_def Let_def
        split: prod.splits)
  from model_failure_exits_1_and_writes_nothing [OF h] h show ?thesis
    by simp
qed

section \<open>Search, split and replace\<close>

lemma py_contains_Cons:
  "py_contains pat (c # cs) = (prefix pat (c # cs) \<or> py_contains pat cs)"
  by (auto simp: py_contains_def)

lemma py_contains_prefix: "prefix pat s \<Longrightarrow> py_contains pat s"
  by (cases s) (auto simp: py_contains_def)

lemma py_contains_iff: "py_contains pat s \<longleftrightarrow> (\<exists>p q. s = p @ pat @ q)"
proof
  assume "py_contains pat s"
  then obtain a b where "find_sub pat s = Some (a, b)"
    by (auto simp: py_contains_def)
  then show "\<exists>p q. s = p @ pat @ q"
    by (blast dest: find_sub_Some)
next
  assume "\<exists>p q. s = p @ pat @ q"
  then obtain p q where s: "s = p @ pat @ q" by blast
  show "py_contains pat s"
    unfolding s
  proof (induction p)
    case Nil
    show ?case by (simp add: py_contains_prefix)
  next
    case (Cons x p)
    then show ?case by (simp add: py_contains_Cons)
  qed
qed

lemma find_sub_first:
  "pat \<noteq> [] \<Longrightarrow> \<not> py_contains pat (a @ butlast pat) \<Longrightarrow>
   find_sub pat (a @ pat @ b) = Some (a, b)"
proof (induction a)
  case Nil
  then obtain c cs where "pat @ b = c # cs" by (cases pat) auto
  then show ?case
    by (metis append_Nil append_eq_conv_conj find_sub.simps(2) prefixI)
next
  case (Cons x a)
  from Cons.prems(2) have np: "\<not> prefix pat (x # a @ butlast pat)"
    and nc: "\<not> py_contains pat (a @ butlast pat)"
    by (simp_all add: py_contains_Cons)
  have "\<not> prefix pat (x # a @ pat @ b)"
  proof
    assume "prefix pat (x # a @ pat @ b)"
    moreover have "x # a @ pat @ b = (x # a @ butlast pat) @ (last pat # b)"
      using Cons.prems(1) by simp
    moreover have "length pat \<le> length (x # a @ butlast pat)"
      by simp
    ultimately have "prefix pat (x # a @ butlast pat)"
      by (metis prefix_length_prefix prefixI append.assoc)
    with np show False ..
  qed
  with Cons.IH [OF Cons.prems(1) nc] show ?case by simp
qed

lemma find_sub_None: "\<not> py_contains pat s \<Longrightarrow> find_sub pat s = None"
  by (simp only: py_contains_def not_not)

lemma split_on_nonempty: "split_on sep s \<noteq> []"
  by (subst split_on.simps) (simp split: option.splits)

lemma split_on_absent: "\<not> py_contains sep s \<Longrightarrow> split_on sep s = [s]"
  by (subst split_on.simps) (simp add: find_sub_None)

lemma split_on_first:
  "sep \<noteq> [] \<Longrightarrow> \<not> py_contains sep (a @ butlast sep) \<Longrightarrow>
   split_on sep (a @ sep @ b) = a # split_on sep b"
  by (subst split_on.simps) (simp add: find_sub_first)

lemma replace_absent: "\<not> py_contains old s \<Longrightarrow> replace_nonempty old new s = s"
  by (subst replace_nonempty.simps) (simp add: find_sub_None)

lemma replace_first:
  "old \<noteq> [] \<Longrightarrow> \<not> py_contains old (a @ butlast old) \<Longrightarrow>
   replace_nonempty old new (a @ old @ b) = a @ new @ replace_nonempty old new b"
  by (subst replace_nonempty.simps) (simp add: find_sub_first)

lemma cmd_string_total:
  assumes "py_contains delimiter s"
  shows "\<exists>c. cmd_string s = Inr c"
proof -
  from assms obtain a b where ab: "find_sub delimiter s = Some (a, b)"
    by (auto simp: py_contains_def)
  have "delimiter \<noteq> []" by (simp add: delimiter_def)
  with ab have "split_on delimiter s = a # split_on delimiter b"
    by (subst split_on.simps) simp
  moreover obtain f fs where "split_on delimiter b = f # fs"
    using split_on_nonempty [of delimiter b] by (cases "split_on delimiter b") auto
  ultimately show ?thesis
    by (simp add: cmd_string_def py_nth_def)
qed

lemma py_contains_length: "py_contains pat s \<Longrightarrow> length pat \<le> length s"
  by (auto simp: py_contains_iff)

lemma find_sub_is_first:
  assumes "pat \<noteq> []"
  shows "find_sub pat s = Some (a, b) \<longleftrightarrow> first_occurrence pat s a b"
proof
  assume "first_occurrence pat s a b"
  with assms show "find_sub pat s = Some (a, b)"
    by (simp add: first_occurrence_def find_sub_first)
next
  assume "find_sub pat s = Some (a, b)"
  then have "\<not> py_contains pat (a @ butlast pat)"
  proof (induction s arbitrary: a)
    case Nil
    with assms show ?case by simp
  next
    case (Cons c cs)
    show ?case
    proof (cases "prefix pat (c # cs)")
      case True
      with Cons.prems have "a = []" by simp
      moreover have "\<not> py_contains pat (butlast pat)"
        using assms py_contains_length [of pat "butlast pat"] by (cases pat) auto
      ultimately show ?thesis by simp
    next
      case False
      with Cons.prems obtain a' where a': "find_sub pat cs = Some (a', b)" "a = c # a'"
        by auto
      from a'(1) have cs: "cs = a' @ pat @ b" by (rule find_sub_Some)
      have "\<not> prefix pat (c # a' @ butlast pat)"
      proof
        assume "prefix pat (c # a' @ butlast pat)"
        then have "prefix pat ((c # a' @ butlast pat) @ (last pat # b))"
          by (rule prefix_prefix)
        moreover have "butlast pat @ last pat # b = pat @ b"
          using append_butlast_last_id [OF assms] by (metis append.assoc append_Cons append_Nil)
        ultimately show False using cs False by simp
      qed
      with Cons.IH [OF a'(1)] a'(2) show ?thesis
        by (simp add: py_contains_Cons)
    qed
  qed
  with \<open>find_sub pat s = Some (a, b)\<close> show "first_occurrence pat s a b"
    by (simp add: first_occurrence_def find_sub_Some)
qed

lemma delimiter_nonempty: "delimiter \<noteq> []"
  by (simp add: delimiter_def)

lemma annotation_nonempty: "annotation \<noteq> []"
  by (simp add: annotation_def)

lemmas eval_string =
  delimiter_def annotation_def first_occurrence_def py_contains_def

section \<open>The command string of do mode\<close>

text \<open>
  Claim C1, as the code has it. For a text that holds the delimiter \<open>" # "\<close>, the command
  part is the text before the first delimiter, and the comment is taken from the field
  after it: the text up to the next delimiter, or to the end when there is no other
  delimiter. Every occurrence of the annotation \<open>" * vity generated command"\<close> is
  removed from that field, found from the left; a field without the annotation stays
  as it is, and a field whose only annotation is at its end loses it. The command
  string is the command part, \<open>" # "\<close> and the comment.
\<close>

theorem cmd_string_fields:
  assumes "first_occurrence delimiter text cmd tail"
    and "tail = field \<and> \<not> py_contains delimiter field \<or>
         (\<exists>more. first_occurrence delimiter tail field more)"
  shows "cmd_string text = Inr (cmd @ '' # '' @ py_replace annotation [] field) \<and>
         (\<not> py_contains annotation field \<longrightarrow> py_replace annotation [] field = field) \<and>
         (\<forall>r1 r2. first_occurrence annotation field r1 r2 \<longrightarrow>
            py_replace annotation [] field = r1 @ py_replace annotation [] r2) \<and>
         (\<forall>r. field = r @ annotation \<and> \<not> py_contains annotation (r @ butlast annotation) \<longrightarrow>
            py_replace annotation [] field = r)"
proof (intro conjI allI impI)
  have 1: "split_on delimiter text = cmd # split_on delimiter tail"
    using assms(1) by (simp add: first_occurrence_def split_on_first delimiter_nonempty)
  from assms(2) have "\<exists>fs. split_on delimiter tail = field # fs"
  proof (elim disjE conjE exE)
    assume "tail = field" "\<not> py_contains delimiter field"
    then show ?thesis by (simp add: split_on_absent)
  next
    fix more
    assume "first_occurrence delimiter tail field more"
    then show ?thesis
      by (simp add: first_occurrence_def split_on_first delimiter_nonempty)
  qed
  with 1 show "cmd_string text = Inr (cmd @ '' # '' @ py_replace annotation [] field)"
    by (auto simp: cmd_string_def py_nth_def)
next
  assume "\<not> py_contains annotation field"
  then show "py_replace annotation [] field = field"
    by (simp add: py_replace_def annotation_nonempty replace_absent)
next
  fix r1 r2
  assume "first_occurrence annotation field r1 r2"
  then show "py_replace annotation [] field = r1 @ py_replace annotation [] r2"
    by (simp add: py_replace_def annotation_nonempty first_occurrence_def replace_first)
next
  fix r
  assume "field = r @ annotation \<and> \<not> py_contains annotation (r @ butlast annotation)"
  then have "replace_nonempty annotation [] field = r @ [] @ replace_nonempty annotation [] []"
    using replace_first [OF annotation_nonempty, of r "[]" "[]"] by simp
  moreover have "replace_nonempty annotation [] [] = []"
    by (subst replace_nonempty.simps) (simp add: annotation_nonempty)
  ultimately show "py_replace annotation [] field = r"
    by (simp add: py_replace_def annotation_nonempty)
qed

theorem cmd_string_fields_witness:
  "first_occurrence delimiter ''ls -la # list files * vity generated command'' ''ls -la''
     ''list files * vity generated command'' \<and>
   \<not> py_contains delimiter ''list files * vity generated command'' \<and>
   \<not> py_contains annotation (''list files'' @ butlast annotation) \<and>
   cmd_string ''ls -la # list files * vity generated command'' = Inr ''ls -la # list files''"
proof -
  have h1: "first_occurrence delimiter ''ls -la # list files * vity generated command'' ''ls -la''
     ''list files * vity generated command''"
    by (simp add: eval_string)
  have h2: "\<not> py_contains delimiter ''list files * vity generated command''"
    by (simp add: eval_string)
  have h3: "''list files * vity generated command'' = ''list files'' @ annotation"
    by (simp add: annotation_def)
  have h4: "\<not> py_contains annotation (''list files'' @ butlast annotation)"
    by (simp add: eval_string)
  note c = cmd_string_fields [OF h1 disjI1 [OF conjI [OF refl h2]]]
  note A = c [THEN conjunct1]
  note D = c [THEN conjunct2, THEN conjunct2, THEN conjunct2, THEN spec, of "''list files''"]
  have E: "py_replace annotation [] ''list files * vity generated command'' = ''list files''"
    by (rule D [THEN mp, OF conjI [OF h3 h4]])
  have "cmd_string ''ls -la # list files * vity generated command'' =
      Inr (''ls -la'' @ '' # '' @ ''list files'')"
    by (simp only: A E)
  then have F: "cmd_string ''ls -la # list files * vity generated command'' =
      Inr ''ls -la # list files''"
    by simp
  from h1 h2 h4 F show ?thesis by (intro conjI)
qed

text \<open>
  The claim as the specification states it (the rest is everything after the first
  delimiter) fails on a text with two delimiters: the code drops what follows the
  second one.
\<close>

theorem cmd_string_differs_from_spec_canonical:
  "cmd_string ''ls -la # list # all * vity generated command'' = Inr ''ls -la # list'' \<and>
   spec_canonical ''ls -la # list # all * vity generated command'' = ''ls -la # list # all'' \<and>
   cmd_string ''ls -la # list # all * vity generated command'' \<noteq>
     Inr (spec_canonical ''ls -la # list # all * vity generated command'')"
  by (simp add: cmd_string_def delimiter_def annotation_def split_on.simps py_nth_def
      py_replace_def replace_nonempty.simps spec_canonical_def spec_strip_annotation_def
      suffix_def)

section \<open>Effects of the steps\<close>

lemma stdout_save_chat_history [simp]: "stdout (save_chat_history ext cf updated w) = stdout w"
  by (simp add: save_chat_history_def write_text_def split: option.splits)

lemma files_save_chat_history_other:
  "given cf \<noteq> Some p \<Longrightarrow> files (save_chat_history ext cf updated w) p = files w p"
  by (auto simp: save_chat_history_def write_text_def split: option.splits)

lemma stdout_add_to_bash_history [simp]: "stdout (add_to_bash_history c w) = stdout w"
  by (simp add: add_to_bash_history_def append_text_def split: option.splits)

lemma files_add_to_bash_history:
  "files (add_to_bash_history c w) bash_history =
     map_option (\<lambda>old. old @ c @ '' # Vity generated'' @ [CHR 0x0A]) (files w bash_history)"
  by (simp add: add_to_bash_history_def append_text_def split: option.splits)

lemma files_report_reply [simp]: "files (snd (report_reply l w)) = files w"
  by (simp add: report_reply_def split: option.splits sum.splits)

lemma do_branch_no_delimiter:
  "generate_command ext th ch ui = Inr updated \<Longrightarrow>
   last_assistant updated = Some msg \<Longrightarrow>
   extract_text msg = Inr (PStr text) \<Longrightarrow>
   \<not> py_contains delimiter text \<Longrightarrow>
   do_branch ext a th ch ui w =
     (None, save_chat_history ext (chat_file a) updated (print (Command_line (PStr text)) w))"
  by (auto simp: do_branch_def report_command_def
      dest!: last_assistant_Some is_assistant_nonempty)

lemma main_do_chat_Chat:
  "command a = Chat \<Longrightarrow>
   main_do_chat ext a w =
     (case model_call ext a w of
        Inl e \<Rightarrow> (print (Error_line e) (print Thinking (after_loading ext a w)), 1)
      | Inr updated \<Rightarrow>
          (case report_reply (last_assistant updated) (print Thinking (after_loading ext a w)) of
             (Some e, w') \<Rightarrow> (print (Error_line e) w', 1)
           | (None, w') \<Rightarrow> (save_chat_history ext (chat_file a) updated w', 0)))"
  by (auto simp: main_do_chat_def model_call_def after_loading_def chat_branch_def Let_def
      split: prod.splits sum.splits option.splits)

lemma main_do_chat_Chat_files:
  assumes "command a = Chat" "given (chat_file a) \<noteq> Some p"
  shows "files (fst (main_do_chat ext a w)) p = files w p"
proof (cases "model_call ext a w")
  case (Inl e)
  then show ?thesis by (simp add: main_do_chat_failure)
next
  case (Inr updated)
  obtain r w' where r: "report_reply (last_assistant updated) (print Thinking (after_loading ext a w)) = (r, w')"
    by (cases "report_reply (last_assistant updated) (print Thinking (after_loading ext a w))")
  then have "files w' = files w"
    using files_report_reply [of "last_assistant updated" "print Thinking (after_loading ext a w)"]
    by simp
  with assms Inr r show ?thesis
    by (cases r) (simp_all add: main_do_chat_Chat files_save_chat_history_other)
qed

lemmas eval_example =
  replying_client_def failing_client_def example_args_def example_world_def text_message_def
  last_assistant_def is_assistant_def extract_text_def dict_get_def

lemma example_cmd_string:
  "cmd_string ''ls -la # list files * vity generated command'' = Inr ''ls -la # list files''"
  by (simp add: cmd_string_def delimiter_def annotation_def split_on.simps py_nth_def
      py_replace_def replace_nonempty.simps)

section \<open>A text without the delimiter\<close>

text \<open>
  Claim C9. When the text of the last assistant message does not hold \<open>" # "\<close>, the do
  command prints the whole text, unchanged, as the command, and nothing else: there is
  no comment, and the next step is the saving of the chat history.
\<close>

theorem no_delimiter_prints_text:
  "generate_command ext th ch ui = Inr updated \<Longrightarrow>
   last_assistant updated = Some msg \<Longrightarrow>
   extract_text msg = Inr (PStr text) \<Longrightarrow>
   \<not> py_contains delimiter text \<Longrightarrow>
   do_branch ext a th ch ui w =
     (None, save_chat_history ext (chat_file a) updated (print (Command_line (PStr text)) w)) \<and>
   stdout (snd (do_branch ext a th ch ui w)) = stdout w @ [Command_line (PStr text)]"
  by (simp add: do_branch_no_delimiter)

theorem no_delimiter_witness:
  "last_assistant [text_message ''user'' ''hi'', text_message ''assistant'' ''hello there''] =
     Some (text_message ''assistant'' ''hello there'') \<and>
   extract_text (text_message ''assistant'' ''hello there'') = Inr (PStr ''hello there'') \<and>
   \<not> py_contains delimiter ''hello there'' \<and>
   stdout (snd (do_branch
       (replying_client [text_message ''user'' ''hi'', text_message ''assistant'' ''hello there''])
       (example_args Do) [] (PList []) ''hi'' example_world)) =
     stdout example_world @ [Command_line (PStr ''hello there'')]"
proof -
  let ?updated = "[text_message ''user'' ''hi'', text_message ''assistant'' ''hello there'']"
  have h1: "generate_command (replying_client ?updated) [] (PList []) ''hi'' = Inr ?updated"
    by (simp add: replying_client_def)
  have h2: "last_assistant ?updated = Some (text_message ''assistant'' ''hello there'')"
    by (simp add: eval_example)
  have h3: "extract_text (text_message ''assistant'' ''hello there'') = Inr (PStr ''hello there'')"
    by (simp add: eval_example)
  have h4: "\<not> py_contains delimiter ''hello there''"
    by (simp add: eval_string)
  note c = no_delimiter_prints_text [OF h1 h2 h3 h4, of "example_args Do" example_world]
  from h2 h3 h4 c [THEN conjunct2] show ?thesis by (intro conjI)
qed

section \<open>The last assistant message\<close>

text \<open>
  Claim C6. The message taken from the updated history is the last one whose role is
  \<open>assistant\<close>: the one with no assistant message after it, so the fourth of
  \<open>[user, assistant, user, assistant]\<close>. When no message has that role nothing is
  selected, and neither the do nor the chat command prints anything; the history is
  saved as usual.
\<close>

theorem last_assistant_selection:
  "(is_assistant m \<and> \<not> list_ex is_assistant post \<longrightarrow>
      last_assistant (pre @ [m] @ post) = Some m) \<and>
   (is_assistant a2 \<longrightarrow> last_assistant [u1, a1, u2, a2] = Some a2) \<and>
   (\<not> list_ex is_assistant updated \<longrightarrow>
      last_assistant updated = None \<and>
      (generate_command ext th ch ui = Inr updated \<longrightarrow>
         do_branch ext a th ch ui w = (None, save_chat_history ext (chat_file a) updated w) \<and>
         stdout (snd (do_branch ext a th ch ui w)) = stdout w) \<and>
      (generate_chat_response ext th ch ui = Inr updated \<longrightarrow>
         chat_branch ext a th ch ui w = (None, save_chat_history ext (chat_file a) updated w) \<and>
         stdout (snd (chat_branch ext a th ch ui w)) = stdout w))"
proof (intro conjI impI)
  assume "is_assistant a2"
  then show "last_assistant [u1, a1, u2, a2] = Some a2"
    using last_assistant_append [of a2 "[]" "[u1, a1, u2]"] by simp
next
  assume "is_assistant m \<and> \<not> list_ex is_assistant post"
  then show "last_assistant (pre @ [m] @ post) = Some m"
    by (intro last_assistant_append) simp_all
qed (simp_all add: last_assistant_None do_branch_def chat_branch_def
      report_command_def report_reply_def)

theorem last_assistant_selection_witness:
  "is_assistant (text_message ''assistant'' ''second'') \<and>
   last_assistant [text_message ''user'' ''a'', text_message ''assistant'' ''first'',
       text_message ''user'' ''b'', text_message ''assistant'' ''second''] =
     Some (text_message ''assistant'' ''second'') \<and>
   text_message ''assistant'' ''second'' \<noteq> text_message ''assistant'' ''first'' \<and>
   \<not> list_ex is_assistant [text_message ''user'' ''a''] \<and>
   last_assistant [text_message ''user'' ''a''] = None \<and>
   stdout (snd (do_branch (replying_client [text_message ''user'' ''a'']) (example_args Do)
       [] (PList []) ''a'' example_world)) = stdout example_world"
proof -
  have h1: "is_assistant (text_message ''assistant'' ''second'')"
    by (simp add: is_assistant_def text_message_def)
  have h2: "\<not> list_ex is_assistant [text_message ''user'' ''a'']"
    by (simp add: is_assistant_def text_message_def)
  have h3: "generate_command (replying_client [text_message ''user'' ''a'']) [] (PList []) ''a'' =
      Inr [text_message ''user'' ''a'']"
    by (simp add: replying_client_def)
  have h4: "text_message ''assistant'' ''second'' \<noteq> text_message ''assistant'' ''first''"
    by (simp add: text_message_def)
  note c = last_assistant_selection
    [where ?a2.0 = "text_message ''assistant'' ''second''"
       and ?u1.0 = "text_message ''user'' ''a''"
       and ?a1.0 = "text_message ''assistant'' ''first''"
       and ?u2.0 = "text_message ''user'' ''b''"
       and updated = "[text_message ''user'' ''a'']"
       and ext = "replying_client [text_message ''user'' ''a'']"
       and th = "[]" and ch = "PList []" and ui = "''a''"
       and a = "example_args Do" and w = example_world]
  note A = c [THEN conjunct2, THEN conjunct1, THEN mp, OF h1]
  note B = c [THEN conjunct2, THEN conjunct2, THEN mp, OF h2]
  note B1 = B [THEN conjunct1]
  note B2 = B [THEN conjunct2, THEN conjunct1, THEN mp, OF h3, THEN conjunct2]
  from h1 A h4 h2 B1 B2 show ?thesis by (intro conjI)
qed

section \<open>Extracting the text\<close>

text \<open>
  The parts of claim C4 that hold: a message without the \<open>content\<close> key, and a first
  content part without the \<open>text\<close> key, give the empty string.
\<close>

lemma extract_text_missing_content:
  "map_of msg ''content'' = None \<Longrightarrow> extract_text msg = Inr (PStr [])"
  by (simp add: extract_text_def dict_get_def)

lemma extract_text_missing_text:
  "map_of msg ''content'' = Some (PList (PDict part # parts)) \<Longrightarrow>
   map_of part ''text'' = None \<Longrightarrow> extract_text msg = Inr (PStr [])"
  by (simp add: extract_text_def dict_get_def)

text \<open>
  Claim C4 fails on an empty list of parts. The default \<open>[{}]\<close> stands in only for a
  missing key; \<open>[][0]\<close> raises \<open>IndexError\<close>, which reaches the handler of line 210: the
  invocation prints the error and exits with code 1, and the chat history is not saved.
\<close>

theorem empty_content_raises_IndexError:
  "is_assistant [(''role'', PStr ''assistant''), (''content'', PList [])] \<and>
   extract_text [(''role'', PStr ''assistant''), (''content'', PList [])] = Inl IndexError \<and>
   main_do_chat (replying_client [[(''role'', PStr ''assistant''), (''content'', PList [])]])
       (example_args Do) example_world =
     (print (Error_line IndexError) (print Thinking
        (after_loading (replying_client [[(''role'', PStr ''assistant''), (''content'', PList [])]])
           (example_args Do) example_world)), 1)"
  by (simp add: eval_example main_do_chat_def do_branch_def report_command_def after_loading_def
      load_terminal_history_def load_chat_history_def read_text_def split: prod.splits)

section \<open>Loading the chat history\<close>



section \<open>The chat command and the shell history\<close>

text \<open>
  Claim C10. A chat invocation changes no file but the one named by the chat path, so
  the shell history file stays as it was (the chat path being another file). When the
  model client returns and the text of the last assistant message is extracted, the
  invocation prints that text after the progress line, saves the history and exits
  with code 0.
\<close>

theorem chat_leaves_shell_history:
  "command a = Chat \<Longrightarrow>
   (\<forall>p. given (chat_file a) \<noteq> Some p \<longrightarrow> files (fst (main_do_chat ext a w)) p = files w p) \<and>
   (given (chat_file a) \<noteq> Some bash_history \<longrightarrow>
      files (fst (main_do_chat ext a w)) bash_history = files w bash_history) \<and>
   (\<forall>updated msg t.
      model_call ext a w = Inr updated \<and> last_assistant updated = Some msg \<and>
      extract_text msg = Inr t \<longrightarrow>
      main_do_chat ext a w =
        (save_chat_history ext (chat_file a) updated
           (print (Reply t) (print Thinking (after_loading ext a w))), 0))"
proof (intro conjI allI impI)
  fix updated msg t
  assume "command a = Chat"
    and "model_call ext a w = Inr updated \<and> last_assistant updated = Some msg \<and>
      extract_text msg = Inr t"
  then show "main_do_chat ext a w =
        (save_chat_history ext (chat_file a) updated
           (print (Reply t) (print Thinking (after_loading ext a w))), 0)"
    by (auto simp: main_do_chat_Chat report_reply_def
        dest!: last_assistant_Some is_assistant_nonempty)
qed (simp_all add: main_do_chat_Chat_files)

theorem chat_leaves_shell_history_witness:
  "command (example_args Chat) = Chat \<and>
   given (chat_file (example_args Chat)) \<noteq> Some bash_history \<and>
   files (fst (main_do_chat (replying_client [text_message ''assistant'' ''hello # there''])
       (example_args Chat) example_world)) bash_history = files example_world bash_history \<and>
   files example_world bash_history = Some (''ls'' @ [CHR 0x0A])"
proof -
  have h1: "command (example_args Chat) = Chat"
    by (simp add: example_args_def)
  have h2: "given (chat_file (example_args Chat)) \<noteq> Some bash_history"
    by (simp add: example_args_def bash_history_def)
  have h3: "files example_world bash_history = Some (''ls'' @ [CHR 0x0A])"
    by (simp add: example_world_def bash_history_def)
  note c = chat_leaves_shell_history [OF h1, THEN conjunct2, THEN conjunct1, THEN mp, OF h2]
  from h1 h2 c h3 show ?thesis by (intro conjI)
qed

section \<open>The do command, its output and the shell history\<close>

text \<open>
  Claim C3, as the code has it. In do mode, with the text of the last assistant message
  extracted: when the text holds the delimiter, the command string is printed and, when
  \<open>~/.bash_history\<close> exists, appended to it followed by \<open>" # Vity generated"\<close> and a
  newline (a missing history file stays missing); when the text does not hold the
  delimiter, the text is printed and the history file is left as it was. (The chat
  path is taken to name another file than the shell history.)
\<close>

theorem do_branch_command_output:
  assumes "generate_command ext th ch ui = Inr updated"
    and "last_assistant updated = Some msg"
    and "extract_text msg = Inr (PStr text)"
  shows "(py_contains delimiter text \<longrightarrow>
           (\<exists>c. cmd_string text = Inr c \<and>
              do_branch ext a th ch ui w =
                (None, save_chat_history ext (chat_file a) updated
                   (add_to_bash_history c (print (Command_line (PStr c)) w))) \<and>
              stdout (snd (do_branch ext a th ch ui w)) = stdout w @ [Command_line (PStr c)] \<and>
              (given (chat_file a) \<noteq> Some bash_history \<longrightarrow>
                 files (snd (do_branch ext a th ch ui w)) bash_history =
                   map_option (\<lambda>old. old @ c @ '' # Vity generated'' @ [CHR 0x0A])
                     (files w bash_history)))) \<and>
         (\<not> py_contains delimiter text \<longrightarrow>
            stdout (snd (do_branch ext a th ch ui w)) = stdout w @ [Command_line (PStr text)] \<and>
            (given (chat_file a) \<noteq> Some bash_history \<longrightarrow>
               files (snd (do_branch ext a th ch ui w)) bash_history = files w bash_history))"
proof (intro conjI impI)
  assume d: "py_contains delimiter text"
  then obtain c where c: "cmd_string text = Inr c"
    using cmd_string_total by blast
  from assms(2) have ne: "msg \<noteq> []"
    by (blast dest: last_assistant_Some is_assistant_nonempty)
  have eq: "do_branch ext a th ch ui w =
      (None, save_chat_history ext (chat_file a) updated
         (add_to_bash_history c (print (Command_line (PStr c)) w)))"
    using assms d c ne by (simp add: do_branch_def report_command_def)
  show "\<exists>c. cmd_string text = Inr c \<and>
      do_branch ext a th ch ui w =
        (None, save_chat_history ext (chat_file a) updated
           (add_to_bash_history c (print (Command_line (PStr c)) w))) \<and>
      stdout (snd (do_branch ext a th ch ui w)) = stdout w @ [Command_line (PStr c)] \<and>
      (given (chat_file a) \<noteq> Some bash_history \<longrightarrow>
         files (snd (do_branch ext a th ch ui w)) bash_history =
           map_option (\<lambda>old. old @ c @ '' # Vity generated'' @ [CHR 0x0A])
             (files w bash_history))"
    using c eq
    by (intro exI [of _ c])
       (simp add: files_save_chat_history_other files_add_to_bash_history)
next
  assume d: "\<not> py_contains delimiter text"
  note n = do_branch_no_delimiter [OF assms d, of a w]
  from n show "stdout (snd (do_branch ext a th ch ui w)) = stdout w @ [Command_line (PStr text)]"
    by simp
  assume "given (chat_file a) \<noteq> Some bash_history"
  with n show "files (snd (do_branch ext a th ch ui w)) bash_history = files w bash_history"
    by (simp add: files_save_chat_history_other)
qed

theorem do_branch_command_output_witness:
  "last_assistant [text_message ''assistant'' ''ls -la # list files * vity generated command''] =
     Some (text_message ''assistant'' ''ls -la # list files * vity generated command'') \<and>
   extract_text (text_message ''assistant'' ''ls -la # list files * vity generated command'') =
     Inr (PStr ''ls -la # list files * vity generated command'') \<and>
   py_contains delimiter ''ls -la # list files * vity generated command'' \<and>
   given (chat_file (example_args Do)) \<noteq> Some bash_history \<and>
   files (snd (do_branch
       (replying_client [text_message ''assistant'' ''ls -la # list files * vity generated command''])
       (example_args Do) [] (PList []) ''list files'' example_world)) bash_history =
     Some (''ls'' @ [CHR 0x0A] @ ''ls -la # list files # Vity generated'' @ [CHR 0x0A])"
proof -
  let ?t = "''ls -la # list files * vity generated command''"
  let ?u = "[text_message ''assistant'' ?t]"
  have h1: "generate_command (replying_client ?u) [] (PList []) ''list files'' = Inr ?u"
    by (simp add: replying_client_def)
  have h2: "last_assistant ?u = Some (text_message ''assistant'' ?t)"
    by (simp add: eval_example)
  have h3: "extract_text (text_message ''assistant'' ?t) = Inr (PStr ?t)"
    by (simp add: eval_example)
  have h4: "py_contains delimiter ?t"
    by (simp add: eval_string)
  have h5: "given (chat_file (example_args Do)) \<noteq> Some bash_history"
    by (simp add: example_args_def bash_history_def)
  have h6: "files example_world bash_history = Some (''ls'' @ [CHR 0x0A])"
    by (simp add: example_world_def bash_history_def)
  note c = do_branch_command_output [OF h1 h2 h3, of "example_args Do" example_world,
      THEN conjunct1, THEN mp, OF h4]
  then obtain c where c: "cmd_string ?t = Inr c"
    and f: "given (chat_file (example_args Do)) \<noteq> Some bash_history \<longrightarrow>
       files (snd (do_branch (replying_client ?u) (example_args Do) [] (PList []) ''list files''
         example_world)) bash_history =
       map_option (\<lambda>old. old @ c @ '' # Vity generated'' @ [CHR 0x0A])
         (files example_world bash_history)"
    by blast
  from c have "c = ''ls -la # list files''"
    by (simp only: example_cmd_string sum.inject)
  with f [THEN mp, OF h5] h6
  have "files (snd (do_branch (replying_client ?u) (example_args Do) [] (PList []) ''list files''
         example_world)) bash_history =
     Some (''ls'' @ [CHR 0x0A] @ ''ls -la # list files # Vity generated'' @ [CHR 0x0A])"
    by simp
  with h2 h3 h4 h5 show ?thesis by (intro conjI)
qed

text \<open>
  The claim as stated (the line is appended whether or not the text held the
  delimiter) fails: for the reply \<open>hello there\<close> the text is printed and the existing
  history file is not changed.
\<close>

theorem no_delimiter_nothing_appended:
  "files example_world bash_history = Some (''ls'' @ [CHR 0x0A]) \<and>
   main_do_chat (replying_client [text_message ''assistant'' ''hello there''])
       (example_args Do) example_world =
     (\<lparr>files = (files example_world)(''chat.json'' \<mapsto> ''[]''),
       stdout = [Warn_invalid_json ''chat.json'', Thinking, Command_line (PStr ''hello there'')]\<rparr>, 0) \<and>
   files (fst (main_do_chat (replying_client [text_message ''assistant'' ''hello there''])
       (example_args Do) example_world)) bash_history = Some (''ls'' @ [CHR 0x0A])"
  by (simp add: eval_example eval_string main_do_chat_def do_branch_def report_command_def
      load_terminal_history_def load_chat_history_def read_text_def save_chat_history_def
      write_text_def print_def bash_history_def split: prod.splits)

section \<open>Occurrences across a line break\<close>

lemma marker_nonempty: "marker \<noteq> []"
  by (simp add: marker_def)

lemma newline_not_in_marker: "CHR 0x0A \<notin> set marker"
  by (simp add: marker_def)

lemma prefix_across:
  assumes "prefix pat (x @ c # t)" "c \<notin> set pat"
  shows "prefix pat x"
proof -
  from assms(1) consider "prefix pat x" | us where "pat = x @ us" "prefix us (c # t)"
    by (auto simp: prefix_append)
  then show ?thesis
  proof cases
    case 1
    then show ?thesis .
  next
    case 2
    with assms(2) have "us = []"
      by (cases us) auto
    with 2 show ?thesis by simp
  qed
qed

lemma find_sub_skip:
  assumes "pat \<noteq> []" "c \<notin> set pat" "\<not> py_contains pat x"
  shows "find_sub pat (x @ c # t) = map_option (\<lambda>(a, b). (x @ c # a, b)) (find_sub pat t)"
  using assms(3)
proof (induction x)
  case Nil
  have "\<not> prefix pat (c # t)"
    using assms(1,2) by (cases pat) auto
  then show ?case by simp
next
  case (Cons y x)
  from Cons.prems have np: "\<not> prefix pat (y # x)" and nc: "\<not> py_contains pat x"
    by (simp_all add: py_contains_Cons)
  have "\<not> prefix pat (y # x @ c # t)"
    using prefix_across [of pat "y # x" c t] assms(2) np by auto
  with Cons.IH [OF nc] show ?case
    by (simp add: option.map_comp comp_def case_prod_unfold)
qed

lemma py_contains_skip:
  "pat \<noteq> [] \<Longrightarrow> c \<notin> set pat \<Longrightarrow> \<not> py_contains pat x \<Longrightarrow>
   py_contains pat (x @ c # t) = py_contains pat t"
  by (simp add: py_contains_def find_sub_skip)

lemma py_count_skip:
  assumes "pat \<noteq> []" "c \<notin> set pat" "\<not> py_contains pat x"
  shows "py_count pat (x @ c # t) = py_count pat t"
proof -
  have "py_count pat (x @ c # t) =
      (case find_sub pat (x @ c # t) of None \<Rightarrow> 0 | Some (a, b) \<Rightarrow> Suc (py_count pat b))"
    using assms(1) by (subst py_count.simps) simp
  also have "\<dots> = (case find_sub pat t of None \<Rightarrow> 0 | Some (a, b) \<Rightarrow> Suc (py_count pat b))"
    by (simp add: find_sub_skip [OF assms] split: option.splits)
  also have "\<dots> = py_count pat t"
    using assms(1) by (subst (2) py_count.simps) simp
  finally show ?thesis .
qed

lemma py_count_absent: "pat \<noteq> [] \<Longrightarrow> \<not> py_contains pat s \<Longrightarrow> py_count pat s = 0"
  by (subst py_count.simps) (simp add: find_sub_None)

lemma py_count_present: "pat \<noteq> [] \<Longrightarrow> py_contains pat s \<Longrightarrow> 0 < py_count pat s"
  by (subst py_count.simps) (auto simp: py_contains_def)

lemma py_count_first:
  "pat \<noteq> [] \<Longrightarrow> \<not> py_contains pat (a @ butlast pat) \<Longrightarrow>
   py_count pat (a @ pat @ b) = Suc (py_count pat b)"
  by (subst py_count.simps) (simp add: find_sub_first)

lemma py_contains_join:
  assumes "pat \<noteq> []" "c \<notin> set pat"
  shows "list_all (\<lambda>l. \<not> py_contains pat l) ls \<Longrightarrow> \<not> py_contains pat (py_join [c] ls)"
proof (induction ls rule: induct_list012)
  case 1
  with assms show ?case by (simp add: py_contains_def)
next
  case (2 x)
  then show ?case by simp
next
  case (3 x y zs)
  then show ?case
    using assms by (simp add: py_contains_skip)
qed

lemma py_contains_prefix_mono:
  "py_contains pat x \<Longrightarrow> prefix x y \<Longrightarrow> py_contains pat y"
  by (auto simp: py_contains_iff prefix_def) (metis append.assoc)

lemma universal_newlines_no_cr:
  "CHR 0x0D \<notin> set s \<Longrightarrow> universal_newlines s = s"
  by (induction s) auto

lemma set_py_join: "set (py_join sep ls) \<subseteq> set sep \<union> \<Union> (set ` set ls)"
  by (induction sep ls rule: py_join.induct) auto

lemma universal_newlines_append_newline:
  "\<exists>x. universal_newlines (raw @ CHR 0x0A # t) = x @ CHR 0x0A # universal_newlines t \<and>
       prefix x (universal_newlines raw)"
proof (induction raw rule: universal_newlines.induct)
  case 1
  show ?case by simp
next
  case (2 c cs)
  show ?case
  proof (cases "c = CHR 0x0D")
    case False
    with 2(3) obtain x where "universal_newlines (cs @ CHR 0x0A # t) = x @ CHR 0x0A # universal_newlines t"
      "prefix x (universal_newlines cs)" by blast
    with False show ?thesis
      by (intro exI [of _ "c # x"]) simp
  next
    case True
    show ?thesis
    proof (cases cs)
      case Nil
      with True show ?thesis by (intro exI [of _ "[]"]) simp
    next
      case (Cons d ds)
      show ?thesis
      proof (cases "d = CHR 0x0A")
        case T: True
        with 2(1) [OF True Cons] obtain x where
          "universal_newlines (ds @ CHR 0x0A # t) = x @ CHR 0x0A # universal_newlines t"
          "prefix x (universal_newlines ds)" by blast
        with True Cons T show ?thesis
          by (intro exI [of _ "CHR 0x0A # x"]) simp
      next
        case F: False
        with 2(2) [OF True Cons] obtain x where
          "universal_newlines (cs @ CHR 0x0A # t) = x @ CHR 0x0A # universal_newlines t"
          "prefix x (universal_newlines cs)" by blast
        with True Cons F show ?thesis
          by (intro exI [of _ "CHR 0x0A # x"]) simp
      qed
    qed
  qed
qed

section \<open>The integration script\<close>

lemma script_lines_shape: "script_lines = [] # marker # drop 2 script_lines"
  by (simp add: script_lines_def marker_def)

lemma script_body_no_marker:
  "list_all (\<lambda>l. \<not> py_contains marker l) (drop 2 script_lines)"
  by code_simp

lemma script_lines_no_cr:
  "list_all (\<lambda>l. CHR 0x0D \<notin> set l) script_lines"
  by (simp add: script_lines_def)

lemma py_join_Cons: "ys \<noteq> [] \<Longrightarrow> py_join sep (x # ys) = x @ sep @ py_join sep ys"
  by (cases ys) simp_all

lemma script_body_nonempty: "drop 2 script_lines \<noteq> []"
  by (simp add: script_lines_def)

lemma script_content_shape:
  "script_content = CHR 0x0A # marker @ CHR 0x0A # py_join newline (drop 2 script_lines)"
proof -
  have "script_content = py_join newline ([] # marker # drop 2 script_lines)"
    using script_lines_shape by (simp add: script_content_def)
  also have "\<dots> = newline @ py_join newline (marker # drop 2 script_lines)"
    by simp
  also have "py_join newline (marker # drop 2 script_lines) =
      marker @ newline @ py_join newline (drop 2 script_lines)"
    by (rule py_join_Cons [OF script_body_nonempty])
  finally show ?thesis
    by (simp add: newline_def)
qed

lemma script_content_count: "py_count marker script_content = 1"
proof -
  let ?J = "py_join newline (drop 2 script_lines)"
  have 1: "\<not> py_contains marker ([CHR 0x0A] @ butlast marker)"
    by (simp add: marker_def py_contains_def)
  have "\<not> py_contains marker ?J"
    unfolding newline_def
    by (rule py_contains_join [OF marker_nonempty newline_not_in_marker script_body_no_marker])
  then have "py_count marker ?J = 0"
    by (simp add: py_count_absent marker_nonempty)
  moreover have "\<not> py_contains marker []"
    by (simp add: py_contains_def marker_def)
  ultimately have "py_count marker (CHR 0x0A # ?J) = 0"
    using py_count_skip [OF marker_nonempty newline_not_in_marker, of "[]" ?J] by simp
  moreover have "py_count marker ([CHR 0x0A] @ marker @ (CHR 0x0A # ?J)) =
      Suc (py_count marker (CHR 0x0A # ?J))"
    by (rule py_count_first [OF marker_nonempty 1])
  ultimately show ?thesis
    by (simp add: script_content_shape)
qed

lemma script_content_no_cr: "universal_newlines script_content = script_content"
proof -
  have "CHR 0x0D \<notin> set script_content"
    using set_py_join [of newline script_lines] script_lines_no_cr
    by (auto simp: script_content_def newline_def list_all_iff)
  then show ?thesis by (rule universal_newlines_no_cr)
qed

lemma read_text_files: "files w = files w' \<Longrightarrow> read_text w p = read_text w' p"
  by (simp add: read_text_def)

lemma install_missing:
  "read_text w bashrc = None \<Longrightarrow> files (install_shell_integration w) = files w"
  by (simp add: install_shell_integration_def)

lemma install_present:
  "read_text w bashrc = Some content \<Longrightarrow> py_contains marker content \<Longrightarrow>
   files (install_shell_integration w) = files w"
  by (simp add: install_shell_integration_def)

lemma install_absent:
  assumes "read_text w bashrc = Some content" "\<not> py_contains marker content"
  shows "\<exists>content'. read_text (install_shell_integration w) bashrc = Some content' \<and>
           py_count marker content' = 1"
proof -
  from assms(1) obtain raw where raw: "files w bashrc = Some raw" "content = universal_newlines raw"
    by (auto simp: read_text_def)
  have "files (install_shell_integration w) bashrc = Some (raw @ CHR 0x0A # script_content)"
    using assms raw by (simp add: install_shell_integration_def append_text_def newline_def)
  then have r: "read_text (install_shell_integration w) bashrc =
      Some (universal_newlines (raw @ CHR 0x0A # script_content))"
    by (simp add: read_text_def)
  obtain x where x: "universal_newlines (raw @ CHR 0x0A # script_content) =
      x @ CHR 0x0A # universal_newlines script_content" "prefix x (universal_newlines raw)"
    using universal_newlines_append_newline [of raw script_content] by blast
  from x(2) assms(2) raw(2) have "\<not> py_contains marker x"
    by (blast intro: py_contains_prefix_mono)
  then have "py_count marker (x @ CHR 0x0A # script_content) = 1"
    by (simp add: py_count_skip [OF marker_nonempty newline_not_in_marker] script_content_count)
  with r x(1) show ?thesis
    by (simp add: script_content_no_cr)
qed

lemmas eval_profile =
  profile_world_def install_shell_integration_def reinstall_shell_integration_def
  read_text_def write_text_def append_text_def print_def Let_def
  split_on.simps newline_def marker_def py_contains_def py_strip_def drop_leading.simps
  whitespace_def py_count.simps

section \<open>Installing twice\<close>




section \<open>Lines, and the loop of reinstall\<close>

lemma remove_section_outside:
  "list_all (\<lambda>l. py_strip l \<noteq> marker) pre \<Longrightarrow>
   remove_section (pre @ rest) False acc w = remove_section rest False (acc @ pre) w"
  by (induction pre arbitrary: acc) simp_all

lemma remove_section_inside:
  "list_all (\<lambda>l. py_strip l \<noteq> marker \<and> py_strip l \<noteq> ''}'') body \<Longrightarrow>
   remove_section (body @ rest) True acc w = remove_section rest True acc w"
  by (induction body) simp_all

lemma remove_section_block:
  assumes "py_strip m = marker" "py_strip c = ''}''"
    and "list_all (\<lambda>l. py_strip l \<noteq> marker) (pre @ body @ post)"
    and "list_all (\<lambda>l. py_strip l \<noteq> ''}'') body"
  shows "remove_section (pre @ m # body @ c # post) False [] w =
           (pre @ post, print Removing_existing w)"
proof -
  from assms(3,4) have body: "list_all (\<lambda>l. py_strip l \<noteq> marker \<and> py_strip l \<noteq> ''}'') body"
    by (auto simp: list_all_iff)
  from assms(3) have pre: "list_all (\<lambda>l. py_strip l \<noteq> marker) pre"
    and post: "list_all (\<lambda>l. py_strip l \<noteq> marker) post"
    by simp_all
  have "c \<noteq> m" using assms(1,2) by (auto simp: marker_def)
  have cm: "py_strip c \<noteq> marker" using assms(2) by (simp add: marker_def)
  have "remove_section (pre @ m # body @ c # post) False [] w =
      remove_section (m # body @ c # post) False pre w"
    using remove_section_outside [OF pre, of "m # body @ c # post" "[]" w] by simp
  also have "\<dots> = remove_section (body @ c # post) True pre (print Removing_existing w)"
    using assms(1) by simp
  also have "\<dots> = remove_section (c # post) True pre (print Removing_existing w)"
    by (rule remove_section_inside [OF body])
  also have "\<dots> = remove_section (post @ []) False pre (print Removing_existing w)"
    using assms(2) cm by simp
  also have "\<dots> = remove_section [] False (pre @ post) (print Removing_existing w)"
    by (rule remove_section_outside [OF post])
  finally show ?thesis by simp
qed

lemma py_contains_single: "py_contains [c] s \<longleftrightarrow> c \<in> set s"
  by (auto simp: py_contains_iff in_set_conv_decomp)

lemma split_on_Cons_other:
  "x \<noteq> c \<Longrightarrow>
   split_on [c] (x # s) = (x # hd (split_on [c] s)) # tl (split_on [c] s)"
  by (subst split_on.simps, subst (2 3) split_on.simps) (auto split: option.splits)

lemma split_on_Cons_sep: "split_on [c] (c # s) = [] # split_on [c] s"
  by (subst split_on.simps) simp

lemma split_on_single_append:
  "split_on [c] (a @ c # b) = split_on [c] a @ split_on [c] b"
proof (induction a)
  case Nil
  show ?case
    by (simp add: split_on_Cons_sep) (simp add: split_on.simps)
next
  case (Cons x a)
  show ?case
  proof (cases "x = c")
    case True
    with Cons show ?thesis by (simp add: split_on_Cons_sep)
  next
    case False
    have "split_on [c] a \<noteq> []" by (rule split_on_nonempty)
    with False Cons show ?thesis
      by (simp add: split_on_Cons_other)
  qed
qed

lemma split_on_join:
  "ls \<noteq> [] \<Longrightarrow> list_all (\<lambda>l. c \<notin> set l) ls \<Longrightarrow> split_on [c] (py_join [c] ls) = ls"
proof (induction ls rule: induct_list012)
  case 1
  then show ?case by simp
next
  case (2 x)
  then show ?case by (simp add: split_on_absent py_contains_single)
next
  case (3 x y zs)
  then show ?case
    by (simp add: split_on_single_append split_on_absent py_contains_single)
qed

lemma split_on_lines_subset:
  "l \<in> set (split_on sep s) \<Longrightarrow> set l \<subseteq> set s"
proof (induction sep s rule: split_on.induct)
  case (1 sep s)
  show ?case
  proof (cases "sep = []")
    case True
    with 1(2) show ?thesis by (simp add: split_on.simps)
  next
    case False
    show ?thesis
    proof (cases "find_sub sep s")
      case None
      with False 1(2) show ?thesis by (simp add: split_on.simps)
    next
      case (Some ab)
      obtain a b where ab: "ab = (a, b)" by (cases ab)
      with Some have s: "s = a @ sep @ b" by (simp add: find_sub_Some)
      from False Some ab 1(2) have "l = a \<or> l \<in> set (split_on sep b)"
        by (subst (asm) split_on.simps) simp
      then show ?thesis
      proof
        assume "l = a" with s show ?thesis by auto
      next
        assume "l \<in> set (split_on sep b)"
        with 1(1) [OF False Some ab [symmetric]] s show ?thesis by auto
      qed
    qed
  qed
qed

lemma universal_newlines_has_no_cr: "CHR 0x0D \<notin> set (universal_newlines s)"
  by (induction s rule: universal_newlines.induct) (auto split: list.splits)

lemma drop_leading_suffix: "suffix (drop_leading seqs s) s"
proof (induction seqs s rule: drop_leading.induct)
  case (1 seqs s)
  show ?case
  proof (cases "find (\<lambda>w. w \<noteq> [] \<and> prefix w s) seqs")
    case None
    then show ?thesis by (simp add: drop_leading.simps)
  next
    case (Some w)
    with 1 [OF Some] have "suffix (drop_leading seqs (drop (length w) s)) (drop (length w) s)"
      by simp
    then have "suffix (drop_leading seqs (drop (length w) s)) s"
      by (rule suffix_order.trans) (rule suffix_drop)
    with Some show ?thesis by (subst drop_leading.simps) simp
  qed
qed

lemma py_strip_within: "\<exists>p q. s = p @ py_strip s @ q"
proof -
  let ?t = "drop_leading whitespace s"
  obtain p where p: "s = p @ ?t"
    using drop_leading_suffix [of whitespace s] by (auto simp: suffix_def)
  obtain q where q: "rev ?t = q @ drop_leading (map rev whitespace) (rev ?t)"
    using drop_leading_suffix [of "map rev whitespace" "rev ?t"] by (auto simp: suffix_def)
  from q have "?t = py_strip s @ rev q"
    by (metis py_strip_def rev_append rev_rev_ident)
  with p show ?thesis by metis
qed

lemma py_strip_eq_contains: "py_strip l = pat \<Longrightarrow> py_contains pat l"
  using py_strip_within [of l] by (auto simp: py_contains_iff)

lemma script_lines_block: "script_lines = [] # marker # script_block_body @ [''}'', []]"
  by code_simp

lemma script_block_body_no_marker:
  "list_all (\<lambda>l. \<not> py_contains marker l) script_block_body"
  using script_body_no_marker
  by (auto simp: script_block_body_def list_all_iff dest!: in_set_butlastD)

lemma script_block_body_no_brace:
  "list_all (\<lambda>l. \<not> py_contains ''}'' l) script_block_body"
  by code_simp

lemma script_lines_no_newline: "list_all (\<lambda>l. CHR 0x0A \<notin> set l) script_lines"
  by (simp add: script_lines_def)

lemma script_content_cr: "CHR 0x0D \<notin> set script_content"
  using set_py_join [of newline script_lines] script_lines_no_cr
  by (auto simp: script_content_def newline_def list_all_iff)

lemma script_lines_nonempty: "script_lines \<noteq> []"
  by (subst script_lines_block) simp

lemma split_on_lines_no_sep: "list_all (\<lambda>l. c \<notin> set l) (split_on [c] s)"
proof (induction "[c]" s rule: split_on.induct)
  case (1 s)
  show ?case
  proof (cases "find_sub [c] s")
    case None
    then have "\<not> py_contains [c] s" by (simp add: py_contains_def)
    with None show ?thesis
      by (subst split_on.simps) (simp add: py_contains_single)
  next
    case (Some ab)
    obtain a b where ab: "ab = (a, b)" by (cases ab)
    with Some have "first_occurrence [c] s a b"
      by (simp add: find_sub_is_first)
    then have "c \<notin> set a"
      by (simp add: first_occurrence_def py_contains_single)
    moreover have "list_all (\<lambda>l. c \<notin> set l) (split_on [c] b)"
      using 1 [OF _ Some ab [symmetric]] by simp
    ultimately show ?thesis
      using Some ab by (subst split_on.simps) simp
  qed
qed

lemma py_strip_empty: "py_strip [] = []"
  by (simp add: py_strip_def drop_leading.simps whitespace_def)

lemma py_strip_marker: "py_strip marker = marker"
  by (simp add: py_strip_def drop_leading.simps whitespace_def marker_def)

lemma py_strip_brace: "py_strip ''}'' = ''}''"
  by (simp add: py_strip_def drop_leading.simps whitespace_def)

lemma fresh_block:
  assumes "list_all (\<lambda>l. py_strip l \<noteq> marker) outside"
  shows "one_block (outside @ script_lines) (outside @ [[]]) script_block_body [[]]"
proof -
  have 1: "list_all (\<lambda>l. py_strip l \<noteq> marker) script_block_body"
    using script_block_body_no_marker
    by (auto simp: list_all_iff dest: py_strip_eq_contains)
  have 2: "list_all (\<lambda>l. py_strip l \<noteq> ''}'') script_block_body"
    using script_block_body_no_brace
    by (auto simp: list_all_iff dest: py_strip_eq_contains)
  have 3: "py_strip [] \<noteq> marker"
    by (simp add: py_strip_empty marker_def)
  have "outside @ script_lines = (outside @ [[]]) @ marker # script_block_body @ ''}'' # [[]]"
    by (subst script_lines_block) simp
  with assms 1 2 3 show ?thesis
    unfolding one_block_def
    by (intro exI [of _ marker] exI [of _ "''}''"]) (simp add: py_strip_marker py_strip_brace)
qed

text \<open>
  What reinstall does on a profile with exactly one integration block when no line
  outside the block holds the marker text: the lines outside the block are kept, in
  order, and the script is appended after them, so the file again holds exactly one
  block (the script's), after the kept lines and an empty line.
\<close>

lemma reinstall_without_marker_text_outside:
  assumes "read_text w bashrc = Some content"
    and "one_block (split_on newline content) pre body post"
    and "\<not> py_contains marker (py_join newline (pre @ post))"
  shows "read_text (reinstall_shell_integration w) bashrc =
           Some (py_join newline (pre @ post) @ newline @ script_content) \<and>
         one_block
           (split_on newline (py_join newline (pre @ post) @ newline @ script_content))
           ((if pre @ post = [] then [[]] else pre @ post) @ [[]]) script_block_body [[]]"
proof -
  let ?J = "py_join newline (pre @ post)"
  let ?outside = "if pre @ post = [] then [[]] else pre @ post"
  from assms(2) obtain m c where
    lines: "split_on newline content = pre @ m # body @ c # post"
    and m: "py_strip m = marker" and c: "py_strip c = ''}''"
    and out: "list_all (\<lambda>l. py_strip l \<noteq> marker) (pre @ body @ post)"
    and inner: "list_all (\<lambda>l. py_strip l \<noteq> ''}'') body"
    unfolding one_block_def by blast
  from assms(1) obtain raw where content: "content = universal_newlines raw"
    by (auto simp: read_text_def)
  have kept: "l \<in> set (pre @ post) \<Longrightarrow> CHR 0x0D \<notin> set l \<and> CHR 0x0A \<notin> set l" for l
  proof -
    assume "l \<in> set (pre @ post)"
    then have l: "l \<in> set (split_on newline content)"
      using lines by auto
    then have "set l \<subseteq> set content"
      by (rule split_on_lines_subset)
    moreover have "CHR 0x0A \<notin> set l"
      using l split_on_lines_no_sep [of "CHR 0x0A" content]
      by (simp add: newline_def list_all_iff)
    ultimately show ?thesis
      using universal_newlines_has_no_cr [of raw] content by auto
  qed
  have J_cr: "CHR 0x0D \<notin> set ?J"
    using set_py_join [of newline "pre @ post"] kept by (auto simp: newline_def)
  then have J_un: "universal_newlines ?J = ?J"
    by (rule universal_newlines_no_cr)
  have "CHR 0x0D \<notin> set (?J @ newline @ script_content)"
    using J_cr script_content_cr by (simp add: newline_def)
  then have all_un: "universal_newlines (?J @ newline @ script_content) =
      ?J @ newline @ script_content"
    by (rule universal_newlines_no_cr)
  have rs: "remove_section (split_on newline content) False [] (print Reinstalling w) =
      (pre @ post, print Removing_existing (print Reinstalling w))"
    unfolding lines by (rule remove_section_block [OF m c out inner])
  let ?w3 = "write_text bashrc ?J (print Removing_existing (print Reinstalling w))"
  have step: "reinstall_shell_integration w =
      print Run_source_hint (print Reinstalled
        (install_shell_integration (print Installing_fresh ?w3)))"
    using assms(1) rs by (simp add: reinstall_shell_integration_def Let_def)
  have "read_text (print Installing_fresh ?w3) bashrc = Some ?J"
    using J_un by (simp add: read_text_def write_text_def)
  then have "files (install_shell_integration (print Installing_fresh ?w3)) bashrc =
      Some (?J @ newline @ script_content)"
    using assms(3)
    by (simp add: install_shell_integration_def append_text_def write_text_def)
  then have "files (reinstall_shell_integration w) bashrc = Some (?J @ newline @ script_content)"
    by (simp add: step)
  then have read: "read_text (reinstall_shell_integration w) bashrc =
      Some (?J @ newline @ script_content)"
    using all_un by (simp add: read_text_def)
  have A: "split_on newline ?J = ?outside"
  proof (cases "pre @ post = []")
    case True
    then show ?thesis by (simp add: split_on.simps newline_def)
  next
    case False
    moreover have "list_all (\<lambda>l. CHR 0x0A \<notin> set l) (pre @ post)"
      using kept by (auto simp: list_all_iff)
    ultimately have "split_on [CHR 0x0A] (py_join [CHR 0x0A] (pre @ post)) = pre @ post"
      by (rule split_on_join)
    with False show ?thesis by (simp only: newline_def if_False)
  qed
  have B: "split_on newline script_content = script_lines"
    unfolding newline_def script_content_def
    by (rule split_on_join [OF script_lines_nonempty script_lines_no_newline])
  have "split_on newline (?J @ newline @ script_content) =
      split_on newline ?J @ split_on newline script_content"
    unfolding newline_def by (simp add: split_on_single_append)
  then have sp: "split_on newline (?J @ newline @ script_content) = ?outside @ script_lines"
    by (simp only: A B)
  have "list_all (\<lambda>l. py_strip l \<noteq> marker) ?outside"
    using out by (simp add: py_strip_empty marker_def)
  then have "one_block (?outside @ script_lines) (?outside @ [[]]) script_block_body [[]]"
    by (rule fresh_block)
  with read sp show ?thesis by simp
qed

section \<open>Reinstalling\<close>

text \<open>
  Claim C2 fails on a profile with one integration block and, outside the block, a
  line that holds the marker text without being the marker line. The loop of
  \<open>reinstall_shell_integration\<close> compares the stripped line with the marker, so it
  removes the block and keeps that line; \<open>install_shell_integration\<close> then tests for
  the marker text anywhere in the file, finds it in the kept line and installs
  nothing. The file is left without an integration block, and the success message is
  printed all the same.
\<close>

theorem reinstall_removes_block:
  "one_block
     (split_on newline ''alias vi=vim  # Vity shell integration follows\<newline># Vity shell integration\<newline>vity() {\<newline>    echo hi\<newline>}\<newline>'')
     [''alias vi=vim  # Vity shell integration follows''] [''vity() {'', ''    echo hi''] [[]] \<and>
   filter (\<lambda>l. py_strip l = marker)
     (split_on newline ''alias vi=vim  # Vity shell integration follows\<newline># Vity shell integration\<newline>vity() {\<newline>    echo hi\<newline>}\<newline>'') =
     [''# Vity shell integration''] \<and>
   reinstall_shell_integration
     (profile_world ''alias vi=vim  # Vity shell integration follows\<newline># Vity shell integration\<newline>vity() {\<newline>    echo hi\<newline>}\<newline>'') =
     \<lparr>files = [bashrc \<mapsto> ''alias vi=vim  # Vity shell integration follows\<newline>''],
      stdout = [Reinstalling, Removing_existing, Installing_fresh, Already_installed,
                Reinstalled, Run_source_hint]\<rparr> \<and>
   filter (\<lambda>l. py_strip l = marker)
     (split_on newline ''alias vi=vim  # Vity shell integration follows\<newline>'') = []"
  by (simp add: eval_profile one_block_def)

end
